theory Spec2Isabelle
  imports Complex_Main "HOL-Library.AList"
begin

section \<open>Python strings and integers used by the table merger\<close>

text \<open>
  Strings are lists of 8-bit characters (code points below 256). The functions of this
  section are Python's built-ins as the program calls them: \<^verbatim>\<open>str.replace\<close>,
  \<^verbatim>\<open>str.split\<close> with a one-character separator, list indexing and \<^verbatim>\<open>int\<close> in
  \<^verbatim>\<open>merge_cross_page_tables\<close>, and \<^verbatim>\<open>str.strip\<close> in the OCR loop.
\<close>

function py_replace_ne :: "string \<Rightarrow> string \<Rightarrow> string \<Rightarrow> string" where
  "py_replace_ne old new [] = []"
| "py_replace_ne old new (c # cs) =
     (if old \<noteq> [] \<and> take (length old) (c # cs) = old
      then new @ py_replace_ne old new (drop (length old) (c # cs))
      else c # py_replace_ne old new cs)"
  by pat_completeness auto
termination
  by (relation "measure (\<lambda>(old, new, s). length s)") auto

definition py_replace :: "string \<Rightarrow> string \<Rightarrow> string \<Rightarrow> string" where
  \<comment> \<open>\<^verbatim>\<open>s.replace(old, new)\<close>: every non-overlapping occurrence, left to right; an empty
      \<^verbatim>\<open>old\<close> matches before every character and at the end.\<close>
  "py_replace old new s =
     (if old = [] then new @ concat (map (\<lambda>c. c # new) s) else py_replace_ne old new s)"

fun py_split :: "char \<Rightarrow> string \<Rightarrow> string list" where
  "py_split sep [] = [[]]"
| "py_split sep (c # cs) =
     (if c = sep then [] # py_split sep cs
      else (case py_split sep cs of
              [] \<Rightarrow> [[c]]
            | p # ps \<Rightarrow> (c # p) # ps))"

definition py_index :: "'a list \<Rightarrow> nat \<Rightarrow> 'a option" where
  \<comment> \<open>\<^verbatim>\<open>xs[i]\<close> for a non-negative index; \<open>None\<close> is IndexError.\<close>
  "py_index xs i = (if i < length xs then Some (xs ! i) else None)"

definition is_space :: "char \<Rightarrow> bool" where
  \<comment> \<open>The characters below 256 that \<^verbatim>\<open>str.strip\<close> removes.\<close>
  "is_space c = (c \<in> set [CHR 0x09, CHR 0x0A, CHR 0x0B, CHR 0x0C, CHR 0x0D,
                           CHR 0x1C, CHR 0x1D, CHR 0x1E, CHR 0x1F, CHR 0x20,
                           CHR 0x85, CHR 0xA0])"

definition py_strip :: "string \<Rightarrow> string" where
  "py_strip s = rev (dropWhile is_space (rev (dropWhile is_space s)))"

definition is_digit :: "char \<Rightarrow> bool" where
  "is_digit c = (48 \<le> (of_char c :: nat) \<and> (of_char c :: nat) \<le> 57)"

definition digit_val :: "char \<Rightarrow> int" where
  "digit_val c = int (of_char c :: nat) - 48"

definition digits_val :: "string \<Rightarrow> int" where
  "digits_val ds = foldl (\<lambda>acc c. 10 * acc + digit_val c) 0 ds"

definition is_int_space :: "char \<Rightarrow> bool" where
  \<comment> \<open>The characters below 256 that \<^verbatim>\<open>int\<close> skips around a number: the six ASCII
      whitespace characters and the two non-ASCII ones. Unlike \<^verbatim>\<open>str.strip\<close>, it does
      not skip the separators \<^verbatim>\<open>0x1C\<close> to \<^verbatim>\<open>0x1F\<close>.\<close>
  "is_int_space c = (c \<in> set [CHR 0x09, CHR 0x0A, CHR 0x0B, CHR 0x0C, CHR 0x0D, CHR 0x20,
                               CHR 0x85, CHR 0xA0])"

definition int_max_str_digits :: nat where
  \<comment> \<open>The interpreter's default limit on the number of digits of a decimal string.\<close>
  "int_max_str_digits = 4300"

definition py_int :: "string \<Rightarrow> int option" where
  \<comment> \<open>\<^verbatim>\<open>int(s)\<close>: surrounding whitespace, an optional sign, then one or more decimal
      digits, at most \<open>int_max_str_digits\<close> of them (leading zeros count); \<open>None\<close> is
      ValueError. Underscores between digits are not modelled: the argument is a piece of
      \<^verbatim>\<open>split('_')\<close> and holds none.\<close>
  "py_int s =
     (let t = rev (dropWhile is_int_space (rev (dropWhile is_int_space s)));
          neg = (t \<noteq> [] \<and> hd t = CHR ''-'');
          ds = (if t \<noteq> [] \<and> (hd t = CHR ''-'' \<or> hd t = CHR ''+'') then tl t else t)
      in if ds \<noteq> [] \<and> list_all is_digit ds \<and> length ds \<le> int_max_str_digits
         then Some (if neg then - digits_val ds else digits_val ds)
         else None)"

section \<open>Tables\<close>

text \<open>
  A pandas DataFrame as the merger uses it: the ordered column labels and the ordered
  rows of cells. The row index is left out: \<^verbatim>\<open>read_csv\<close> gives the default range
  index, \<^verbatim>\<open>concat(..., ignore_index=True)\<close> renumbers it and
  \<^verbatim>\<open>to_csv(index=False)\<close> does not write it.
\<close>

record dataframe =
  columns :: "string list"
  rows :: "string list list"

definition concat_df :: "dataframe \<Rightarrow> dataframe \<Rightarrow> dataframe" where
  \<comment> \<open>\<^verbatim>\<open>pd.concat([a, b], ignore_index=True)\<close> for two frames with the same column
      labels in the same order, the only case in which the merger calls it.\<close>
  "concat_df a b = \<lparr>columns = columns a, rows = rows a @ rows b\<rparr>"

text \<open>The dictionaries \<^verbatim>\<open>{'fname': ..., 'page': ..., 'df': ...}\<close> of \<^verbatim>\<open>tables_data\<close>.\<close>

record table_entry =
  fname :: string
  page :: int
  df :: dataframe

section \<open>The table merger\<close>

text \<open>
  \<^verbatim>\<open>pd.read_csv\<close> and \<^verbatim>\<open>DataFrame.to_csv\<close> are library functions; the model takes them
  as the parameters \<open>read_csv\<close> (with \<open>None\<close> when it raises) and \<open>to_csv\<close>.
\<close>

definition parse_entry ::
  "(string \<Rightarrow> dataframe option) \<Rightarrow> string \<times> string \<Rightarrow> table_entry option" where
  \<comment> \<open>The body of the \<^verbatim>\<open>try\<close> in the parsing loop; \<open>None\<close> when it raises, which the bare
      \<^verbatim>\<open>except\<close> swallows.\<close>
  "parse_entry read_csv fc =
     (case fc of (name, content) \<Rightarrow>
        (let parts = py_split (CHR ''_'') (py_replace ''.csv'' [] name) in
         case py_index parts 1 of
           None \<Rightarrow> None
         | Some p \<Rightarrow>
             (case py_int p of
                None \<Rightarrow> None
              | Some page_num \<Rightarrow>
                  (case read_csv content of
                     None \<Rightarrow> None
                   | Some d \<Rightarrow> Some \<lparr>fname = name, page = page_num, df = d\<rparr>))))"

fun parse_csvs ::
  "(string \<Rightarrow> dataframe option) \<Rightarrow> (string \<times> string) list \<Rightarrow> table_entry list" where
  "parse_csvs read_csv [] = []"
| "parse_csvs read_csv (fc # rest) =
     (case parse_entry read_csv fc of
        None \<Rightarrow> parse_csvs read_csv rest
      | Some e \<Rightarrow> e # parse_csvs read_csv rest)"

definition should_merge :: "table_entry \<Rightarrow> table_entry \<Rightarrow> bool" where
  \<comment> \<open>\<^verbatim>\<open>is_consecutive and is_same_cols and headers_match\<close>\<close>
  "should_merge current next_table =
     (let is_consecutive = (page next_table = page current + 1);
          is_same_cols = (length (columns (df current)) = length (columns (df next_table)));
          headers_match = (columns (df current) = columns (df next_table))
      in is_consecutive \<and> is_same_cols \<and> headers_match)"

definition emit :: "(dataframe \<Rightarrow> string) \<Rightarrow> table_entry \<Rightarrow> string \<times> string" where
  \<comment> \<open>\<^verbatim>\<open>(current['fname'], current['df'].to_csv(index=False))\<close>\<close>
  "emit to_csv current = (fname current, to_csv (df current))"

text \<open>
  The \<^verbatim>\<open>while\<close> loop. \<^verbatim>\<open>current\<close> is a reference to the dictionary at index \<open>i\<close> of
  \<^verbatim>\<open>tables_data\<close>, so \<^verbatim>\<open>current['df'] = merged_df\<close> updates that element of the list.
  The loop returns the list as it leaves it together with \<^verbatim>\<open>merged_results\<close>.
\<close>

function merge_loop ::
  "(dataframe \<Rightarrow> string) \<Rightarrow> table_entry list \<Rightarrow> nat \<Rightarrow> (string \<times> string) list
     \<Rightarrow> table_entry list \<times> (string \<times> string) list" where
  "merge_loop to_csv tables_data i merged_results =
     (if i < length tables_data then
        (let current = tables_data ! i in
         if i + 1 < length tables_data \<and> should_merge current (tables_data ! (i + 1))
         then
           (let next_table = tables_data ! (i + 1);
                merged_df = concat_df (df current) (df next_table)
            in merge_loop to_csv (tables_data[i := current\<lparr>df := merged_df\<rparr>]) (i + 1)
                 merged_results)
         else merge_loop to_csv tables_data (i + 1) (merged_results @ [emit to_csv current]))
      else (tables_data, merged_results))"
  by pat_completeness auto
termination
  by (relation "measure (\<lambda>(to_csv, tables_data, i, merged_results). length tables_data - i)")
     auto

declare merge_loop.simps [simp del]

definition merge_cross_page_tables ::
  "(string \<Rightarrow> dataframe option) \<Rightarrow> (dataframe \<Rightarrow> string) \<Rightarrow> (string \<times> string) list
     \<Rightarrow> (string \<times> string) list" where
  "merge_cross_page_tables read_csv to_csv csv_results =
     (if csv_results = [] then []
      else
        (let tables_data = sort_key page (parse_csvs read_csv csv_results)
         in snd (merge_loop to_csv tables_data 0 [])))"

section \<open>Plain comma-separated text\<close>

text \<open>
  What \<^verbatim>\<open>pd.read_csv\<close> and \<^verbatim>\<open>to_csv(index=False)\<close> do on comma-separated text
  without quoting: the first non-blank line holds the column labels, every further
  non-blank line is a row, and text without any non-blank line raises. The general
  theorems below hold for every reader and writer; these two are used to run the merger on
  concrete files.
\<close>

definition plain_read_csv :: "string \<Rightarrow> dataframe option" where
  "plain_read_csv s =
     (case filter (\<lambda>l. l \<noteq> []) (py_split (CHR 0x0A) s) of
        [] \<Rightarrow> None
      | h # rs \<Rightarrow> Some \<lparr>columns = py_split (CHR '','') h, rows = map (py_split (CHR '','')) rs\<rparr>)"

fun join_cells :: "string list \<Rightarrow> string" where
  "join_cells [] = []"
| "join_cells [c] = c"
| "join_cells (c # cs) = c @ '','' @ join_cells cs"

definition plain_to_csv :: "dataframe \<Rightarrow> string" where
  "plain_to_csv d = concat (map (\<lambda>r. join_cells r @ [CHR 0x0A]) (columns d # rows d))"

section \<open>What the sweep emits\<close>

text \<open>
  The entries of a list that are not followed by an entry they merge with; the last entry
  is always one of them.
\<close>

fun unmerged :: "table_entry list \<Rightarrow> table_entry list" where
  "unmerged [] = []"
| "unmerged [a] = [a]"
| "unmerged (a # b # rest) =
     (if should_merge a b then unmerged (b # rest) else a # unmerged (b # rest))"

fun no_adjacent_merge :: "table_entry list \<Rightarrow> bool" where
  "no_adjacent_merge [] = True"
| "no_adjacent_merge [a] = True"
| "no_adjacent_merge (a # b # rest) = (\<not> should_merge a b \<and> no_adjacent_merge (b # rest))"

section \<open>Sample fragments\<close>

definition sample_p3 :: "string \<times> string" where
  "sample_p3 = (''Page_03_Table_01.csv'', ''A,B\<newline>1,2\<newline>3,4\<newline>'')"

definition sample_p3_second :: "string \<times> string" where
  "sample_p3_second = (''Page_03_Table_02.csv'', ''X,Y\<newline>7,8\<newline>'')"

definition sample_p4 :: "string \<times> string" where
  "sample_p4 = (''Page_04_Table_01.csv'', ''A,B\<newline>5,6\<newline>7,8\<newline>9,10\<newline>'')"

definition sample_p5 :: "string \<times> string" where
  "sample_p5 = (''Page_05_Table_01.csv'', ''A,B\<newline>5,6\<newline>7,8\<newline>9,10\<newline>'')"

definition sample_p4_other :: "string \<times> string" where
  "sample_p4_other = (''Page_04_Table_01.csv'', ''A,C\<newline>5,6\<newline>'')"

definition sample_unparseable :: "string \<times> string" where
  "sample_unparseable = (''Table.csv'', ''A,B\<newline>1,2\<newline>'')"

text \<open>The page-3, page-4 and page-5 samples as \<open>plain_read_csv\<close> parses them.\<close>

definition entry_p3 :: table_entry where
  "entry_p3 = \<lparr>fname = ''Page_03_Table_01.csv'', page = 3,
                 df = \<lparr>columns = [''A'', ''B''], rows = [[''1'', ''2''], [''3'', ''4'']]\<rparr>\<rparr>"

definition entry_p4 :: table_entry where
  "entry_p4 = \<lparr>fname = ''Page_04_Table_01.csv'', page = 4,
                 df = \<lparr>columns = [''A'', ''B''],
                        rows = [[''5'', ''6''], [''7'', ''8''], [''9'', ''10'']]\<rparr>\<rparr>"

definition entry_p5 :: table_entry where
  "entry_p5 = \<lparr>fname = ''Page_05_Table_01.csv'', page = 5,
                 df = \<lparr>columns = [''A'', ''B''],
                        rows = [[''5'', ''6''], [''7'', ''8''], [''9'', ''10'']]\<rparr>\<rparr>"

definition entry_p4_other :: table_entry where
  "entry_p4_other = \<lparr>fname = ''Page_04_Table_01.csv'', page = 4,
                       df = \<lparr>columns = [''A'', ''C''], rows = [[''5'', ''6'']]\<rparr>\<rparr>"

section \<open>Pages, tokens and the libraries of the preprocessing step\<close>

text \<open>
  A JSON value, as \<^verbatim>\<open>json.dump\<close> writes it and \<^verbatim>\<open>json.load\<close> reads it. A token is a
  JSON object: a dictionary from keys to values, kept as an association list in insertion
  order. Coordinates taken from the text layer are floating-point numbers; they are
  modelled as reals, which is exact for the two scale factors 1.0 and 2.0 short of overflow.
\<close>

datatype jval =
    JNull
  | JBool bool
  | JInt int
  | JNum real
  | JStr string
  | JList "jval list"
  | JObj "(string \<times> jval) list"

type_synonym token = "(string \<times> jval) list"

text \<open>A tuple of \<^verbatim>\<open>page.get_text("words")\<close>: the entries \<^verbatim>\<open>w[0]\<close> to \<^verbatim>\<open>w[4]\<close>.\<close>

record text_word =
  w0 :: real
  w1 :: real
  w2 :: real
  w3 :: real
  w4 :: string

text \<open>
  A page of the opened document, by what the calls made on it return:
  \<^verbatim>\<open>get_text()\<close>, \<^verbatim>\<open>get_images()\<close>, the width of \<^verbatim>\<open>get_pixmap()\<close>,
  \<^verbatim>\<open>get_pixmap(matrix=fitz.Matrix(zoom, zoom))\<close> and \<^verbatim>\<open>get_text("words")\<close>. The type
  \<open>'img\<close> is the type of raster images.
\<close>

record 'img pdf_page =
  get_text :: string
  get_images :: "nat list"
  default_pix_width :: int
  get_pixmap :: "real \<Rightarrow> 'img"
  get_text_words :: "text_word list"

text \<open>The dictionary that \<^verbatim>\<open>pytesseract.image_to_data\<close> returns, by the keys that are read.\<close>

record ocr_data =
  d_text :: "string list"
  d_left :: "int list"
  d_top :: "int list"
  d_width :: "int list"
  d_height :: "int list"

text \<open>
  The image library and the OCR engine: \<^verbatim>\<open>img.convert('L')\<close>,
  \<^verbatim>\<open>ImageEnhance.Contrast(img).enhance(factor)\<close> and \<^verbatim>\<open>pytesseract.image_to_data\<close> with
  the fixed language and configuration, which is \<open>None\<close> when the call raises.
\<close>

record 'img ocr_lib =
  convert_L :: "'img \<Rightarrow> 'img"
  enhance_contrast :: "real \<Rightarrow> 'img \<Rightarrow> 'img"
  image_to_data :: "'img \<Rightarrow> ocr_data option"

text \<open>What \<^verbatim>\<open>print\<close> writes: the header, the line of a page and the line of an OCR error.\<close>

datatype log_line =
    Header nat
  | PageLine nat string nat nat
  | OCRError nat

text \<open>
  What a run leaves behind: the list it returns, the images and the JSON files it writes
  (path and content, in the order of writing; the content of a JSON file is the list under
  the key \<^verbatim>\<open>words\<close>) and the lines it prints.
\<close>

record 'img outputs =
  file_pairs :: "(string \<times> string) list"
  img_files :: "(string \<times> 'img) list"
  json_files :: "(string \<times> token list) list"
  log_lines :: "log_line list"

section \<open>Paths and page numbers in file names\<close>

definition os_path_join :: "string \<Rightarrow> string \<Rightarrow> string" where
  \<comment> \<open>\<^verbatim>\<open>os.path.join(a, b)\<close> on POSIX\<close>
  "os_path_join a b =
     (if b \<noteq> [] \<and> hd b = CHR ''/'' then b
      else if a = [] \<or> last a = CHR ''/'' then a @ b
      else a @ ''/'' @ b)"

definition digit_char :: "nat \<Rightarrow> char" where
  "digit_char d = char_of (48 + d)"

fun dec_digits :: "nat \<Rightarrow> string" where
  "dec_digits n = (if n < 10 then [digit_char n] else dec_digits (n div 10) @ [digit_char (n mod 10)])"

declare dec_digits.simps [simp del]

definition fmt_03d :: "nat \<Rightarrow> string" where
  \<comment> \<open>\<^verbatim>\<open>f"{n:03d}"\<close> for a non-negative \<open>n\<close>\<close>
  "fmt_03d n = (let s = dec_digits n in replicate (3 - length s) (CHR ''0'') @ s)"

section \<open>Processing a document\<close>

definition preprocess_image_for_ocr :: "'img ocr_lib \<Rightarrow> 'img \<Rightarrow> 'img" where
  "preprocess_image_for_ocr lib img = enhance_contrast lib 2.0 (convert_L lib img)"

definition decision_logic :: "nat \<Rightarrow> bool \<Rightarrow> bool \<times> string" where
  \<comment> \<open>The values of \<^verbatim>\<open>use_ocr\<close> and \<^verbatim>\<open>mode_label\<close> after the decision block.\<close>
  "decision_logic char_count has_images =
     (if char_count > 100 \<and> \<not> has_images then (False, ''Native (Text)'')
      else if char_count > 100 \<and> has_images then (True, ''OCR (Hybrid)'')
      else (True, ''OCR (Scanned)''))"

definition smart_zoom :: "bool \<Rightarrow> int \<Rightarrow> real" where
  "smart_zoom use_ocr width = (if use_ocr \<and> width < 1500 then 2.0 else 1.0)"

definition native_words :: "real \<Rightarrow> text_word list \<Rightarrow> token list" where
  \<comment> \<open>The loop over \<^verbatim>\<open>page.get_text("words")\<close> in native mode.\<close>
  "native_words zoom ws =
     map (\<lambda>w. [(''bbox'', JList [JNum (w0 w * zoom), JNum (w1 w * zoom),
                                   JNum (w2 w * zoom), JNum (w3 w * zoom)]),
                (''text'', JStr (w4 w))]) ws"

text \<open>
  The loop over \<^verbatim>\<open>range(len(data['text']))\<close> inside the \<^verbatim>\<open>try\<close>. The result holds the
  tokens appended so far and whether the loop ran to its end; an index beyond one of the
  coordinate lists raises, and the tokens appended before that stay in \<^verbatim>\<open>words_data\<close>.
\<close>

fun ocr_loop :: "ocr_data \<Rightarrow> nat list \<Rightarrow> token list \<Rightarrow> token list \<times> bool" where
  "ocr_loop data [] words_data = (words_data, True)"
| "ocr_loop data (i # rest) words_data =
     (let text = py_strip (d_text data ! i) in
      if text \<noteq> [] then
        (case (py_index (d_left data) i, py_index (d_top data) i,
               py_index (d_width data) i, py_index (d_height data) i) of
           (Some x, Some y, Some w, Some h) \<Rightarrow>
             ocr_loop data rest
               (words_data @ [[(''text'', JStr text),
                               (''bbox'', JList [JInt x, JInt y, JInt (x + w), JInt (y + h)])]])
         | _ \<Rightarrow> (words_data, False))
      else ocr_loop data rest words_data)"

definition ocr_words :: "'img ocr_lib \<Rightarrow> 'img \<Rightarrow> token list \<times> bool" where
  \<comment> \<open>The body of the \<^verbatim>\<open>try\<close> in OCR mode, on the image saved for the page: the tokens
      and whether it finished without raising.\<close>
  "ocr_words lib raw_img =
     (let ocr_img = preprocess_image_for_ocr lib raw_img in
      case image_to_data lib ocr_img of
        None \<Rightarrow> ([], False)
      | Some data \<Rightarrow> ocr_loop data [0..<length (d_text data)] [])"

definition process_page ::
  "'img ocr_lib \<Rightarrow> string \<Rightarrow> string \<Rightarrow> nat \<Rightarrow> 'img pdf_page \<Rightarrow> 'img outputs \<Rightarrow> 'img outputs"
  where
  \<comment> \<open>One iteration of the loop over \<^verbatim>\<open>enumerate(doc)\<close>.\<close>
  "process_page lib img_dir words_dir page_num pg out =
     (let char_count = length (get_text pg);
          images_on_page = get_images pg;
          has_images = (length images_on_page > 0);
          (use_ocr, mode_label) = decision_logic char_count has_images;
          line = PageLine (page_num + 1) mode_label char_count (length images_on_page);
          zoom = smart_zoom use_ocr (default_pix_width pg);
          pix = get_pixmap pg zoom;
          img_path = os_path_join img_dir (''page_'' @ fmt_03d page_num @ ''.jpg'');
          (words_data, finished) =
             (if \<not> use_ocr then (native_words zoom (get_text_words pg), True)
              else ocr_words lib pix);
          json_path = os_path_join words_dir (''page_'' @ fmt_03d page_num @ ''_words.json'')
      in \<lparr>file_pairs = file_pairs out @ [(img_path, json_path)],
          img_files = img_files out @ [(img_path, pix)],
          json_files = json_files out @ [(json_path, words_data)],
          log_lines = log_lines out @ [line] @ (if finished then [] else [OCRError (page_num + 1)])\<rparr>)"

fun process_pages ::
  "'img ocr_lib \<Rightarrow> string \<Rightarrow> string \<Rightarrow> nat \<Rightarrow> 'img pdf_page list \<Rightarrow> 'img outputs
     \<Rightarrow> 'img outputs" where
  "process_pages lib img_dir words_dir page_num [] out = out"
| "process_pages lib img_dir words_dir page_num (pg # rest) out =
     process_pages lib img_dir words_dir (page_num + 1) rest
       (process_page lib img_dir words_dir page_num pg out)"

definition process_pdf_to_data :: "'img ocr_lib \<Rightarrow> 'img pdf_page list \<Rightarrow> string \<Rightarrow> 'img outputs"
  where
  \<comment> \<open>\<open>doc\<close> is the document that \<^verbatim>\<open>fitz.open(pdf_path)\<close> gives; the function's return
      value is the field \<open>file_pairs\<close> of the result.\<close>
  "process_pdf_to_data lib doc output_dir =
     (let img_dir = os_path_join output_dir ''images'';
          words_dir = os_path_join output_dir ''words''
      in process_pages lib img_dir words_dir 0 doc
           \<lparr>file_pairs = [], img_files = [], json_files = [],
              log_lines = [Header (length doc)]\<rparr>)"

section \<open>Filling token metadata before inference\<close>

definition fill_token :: "nat \<Rightarrow> token \<Rightarrow> token" where
  \<comment> \<open>The three assignments on one token of \<^verbatim>\<open>enumerate(tokens)\<close>.\<close>
  "fill_token idx token =
     (let t1 = (if map_of token ''span_num'' = None
                then AList.update ''span_num'' (JInt (int idx)) token else token);
          t2 = (if map_of t1 ''line_num'' = None
                then AList.update ''line_num'' (JInt 0) t1 else t1);
          t3 = (if map_of t2 ''block_num'' = None
                then AList.update ''block_num'' (JInt 0) t2 else t2)
      in t3)"

definition fill_missing_metadata :: "token list \<Rightarrow> token list" where
  "fill_missing_metadata tokens = map (\<lambda>(idx, token). fill_token idx token) (enumerate 0 tokens)"

section \<open>The values computed for one page\<close>

text \<open>
  The values that the variables \<^verbatim>\<open>use_ocr\<close>, \<^verbatim>\<open>mode_label\<close>, \<^verbatim>\<open>zoom\<close>,
  \<^verbatim>\<open>img_path\<close>, \<^verbatim>\<open>json_path\<close> and \<^verbatim>\<open>words_data\<close> take in the iteration for a page, and
  whether the \<^verbatim>\<open>except\<close> branch is entered.
\<close>

definition page_use_ocr :: "'img pdf_page \<Rightarrow> bool" where
  "page_use_ocr pg = fst (decision_logic (length (get_text pg)) (length (get_images pg) > 0))"

definition page_mode_label :: "'img pdf_page \<Rightarrow> string" where
  "page_mode_label pg = snd (decision_logic (length (get_text pg)) (length (get_images pg) > 0))"

definition page_zoom :: "'img pdf_page \<Rightarrow> real" where
  "page_zoom pg = smart_zoom (page_use_ocr pg) (default_pix_width pg)"

definition img_path_of :: "string \<Rightarrow> nat \<Rightarrow> string" where
  "img_path_of img_dir page_num = os_path_join img_dir (''page_'' @ fmt_03d page_num @ ''.jpg'')"

definition json_path_of :: "string \<Rightarrow> nat \<Rightarrow> string" where
  "json_path_of words_dir page_num =
     os_path_join words_dir (''page_'' @ fmt_03d page_num @ ''_words.json'')"

definition page_words :: "'img ocr_lib \<Rightarrow> 'img pdf_page \<Rightarrow> token list" where
  "page_words lib pg =
     (if \<not> page_use_ocr pg then native_words (page_zoom pg) (get_text_words pg)
      else fst (ocr_words lib (get_pixmap pg (page_zoom pg))))"

definition page_ocr_raised :: "'img ocr_lib \<Rightarrow> 'img pdf_page \<Rightarrow> bool" where
  "page_ocr_raised lib pg =
     (page_use_ocr pg \<and> \<not> snd (ocr_words lib (get_pixmap pg (page_zoom pg))))"

definition page_log :: "'img ocr_lib \<Rightarrow> nat \<Rightarrow> 'img pdf_page \<Rightarrow> log_line list" where
  "page_log lib page_num pg =
     PageLine (page_num + 1) (page_mode_label pg) (length (get_text pg))
       (length (get_images pg))
     # (if page_ocr_raised lib pg then [OCRError (page_num + 1)] else [])"

section \<open>Sample pages\<close>

text \<open>
  Raster images are named by strings here. The sample engine reads two words, the first of
  them blank, from the image named \<open>scan@2x\<close> and raises on every other image.
\<close>

definition sample_ocr_data :: ocr_data where
  "sample_ocr_data =
     \<lparr>d_text = ['' '', '' Amount ''], d_left = [0, 5], d_top = [0, 6],
        d_width = [0, 70], d_height = [0, 8]\<rparr>"

definition sample_lib :: "string ocr_lib" where
  "sample_lib =
     \<lparr>convert_L = (\<lambda>img. img),
        enhance_contrast = (\<lambda>factor img. img),
        image_to_data = (\<lambda>img. if img = ''scan@2x'' then Some sample_ocr_data else None)\<rparr>"

definition sample_native_page :: "string pdf_page" where
  "sample_native_page =
     \<lparr>get_text = replicate 101 (CHR ''a''), get_images = [], default_pix_width = 612,
        get_pixmap = (\<lambda>zoom. if zoom = 2 then ''text@2x'' else ''text@1x''),
        get_text_words = [\<lparr>w0 = 10, w1 = 20, w2 = 30, w3 = 40, w4 = ''Total''\<rparr>]\<rparr>"

definition sample_hybrid_page :: "string pdf_page" where
  "sample_hybrid_page =
     \<lparr>get_text = replicate 101 (CHR ''a''), get_images = [7], default_pix_width = 1500,
        get_pixmap = (\<lambda>zoom. if zoom = 2 then ''mixed@2x'' else ''mixed@1x''),
        get_text_words = [\<lparr>w0 = 10, w1 = 20, w2 = 30, w3 = 40, w4 = ''Total''\<rparr>]\<rparr>"

definition sample_scanned_page :: "string pdf_page" where
  "sample_scanned_page =
     \<lparr>get_text = replicate 100 (CHR ''a''), get_images = [], default_pix_width = 612,
        get_pixmap = (\<lambda>zoom. if zoom = 2 then ''scan@2x'' else ''scan@1x''),
        get_text_words = []\<rparr>"

definition sample_failing_page :: "string pdf_page" where
  "sample_failing_page =
     \<lparr>get_text = [], get_images = [3], default_pix_width = 612,
        get_pixmap = (\<lambda>zoom. if zoom = 2 then ''blank@2x'' else ''blank@1x''),
        get_text_words = []\<rparr>"

definition sample_tokens :: "token list" where
  "sample_tokens =
     [[(''text'', JStr ''Total''), (''bbox'', JList [JInt 1, JInt 2, JInt 3, JInt 4])],
      [(''text'', JStr ''Amount''), (''line_num'', JInt 7), (''span_num'', JNull)]]"

section \<open>Properties of the sweep\<close>

lemma snd_merge_loop:
  "snd (merge_loop to_csv td i out) = out @ map (emit to_csv) (unmerged (drop i td))"
proof (induction to_csv td i out rule: merge_loop.induct)
  case (1 to_csv td i out)
  show ?case
  proof (cases "i < length td")
    case False
    then show ?thesis by (subst merge_loop.simps) simp
  next
    case lt: True
    show ?thesis
    proof (cases "i + 1 < length td")
      case False
      with lt have d: "drop i td = [td ! i]"
        by (metis Cons_nth_drop_Suc Suc_eq_plus1 drop_all not_less)
      from False lt have d2: "drop (Suc i) td = []" by simp
      show ?thesis using 1(2)[OF lt refl] False lt d d2
        by (subst merge_loop.simps) (simp add: Let_def)
    next
      case True
      have d: "drop i td = td ! i # td ! (i + 1) # drop (i + 2) td"
        using True lt by (metis Cons_nth_drop_Suc Suc_eq_plus1 add_2_eq_Suc')
      have d1: "drop (i + 1) td = td ! (i + 1) # drop (i + 2) td"
        using True by (metis Cons_nth_drop_Suc Suc_eq_plus1 add_2_eq_Suc')
      show ?thesis
      proof (cases "should_merge (td ! i) (td ! (i + 1))")
        case sm: True
        have "drop (i + 1) (td[i := (td ! i)\<lparr>df := concat_df (df (td ! i)) (df (td ! (i + 1)))\<rparr>])
              = drop (i + 1) td"
          by simp
        then show ?thesis using 1(1)[OF lt refl _ refl refl] True sm lt d d1
          by (subst merge_loop.simps) (simp add: Let_def)
      next
        case sm: False
        show ?thesis using 1(2)[OF lt refl] True sm lt d d1
          by (subst merge_loop.simps) (simp add: Let_def)
      qed
    qed
  qed
qed

lemma nth_fst_merge_loop:
  "j < length td \<Longrightarrow>
   fst (merge_loop to_csv td i out) ! j =
     (if i \<le> j \<and> j + 1 < length td \<and> should_merge (td ! j) (td ! (j + 1))
      then (td ! j)\<lparr>df := concat_df (df (td ! j)) (df (td ! (j + 1)))\<rparr>
      else td ! j)"
proof (induction to_csv td i out rule: merge_loop.induct)
  case (1 to_csv td i out)
  note j = \<open>j < length td\<close>
  show ?case
  proof (cases "i < length td")
    case False
    then show ?thesis using j by (subst merge_loop.simps) simp
  next
    case lt: True
    show ?thesis
    proof (cases "i + 1 < length td \<and> should_merge (td ! i) (td ! (i + 1))")
      case True
      let ?td' = "td[i := (td ! i)\<lparr>df := concat_df (df (td ! i)) (df (td ! (i + 1)))\<rparr>]"
      have ih: "fst (merge_loop to_csv ?td' (i + 1) out) ! j =
          (if i + 1 \<le> j \<and> j + 1 < length ?td' \<and> should_merge (?td' ! j) (?td' ! (j + 1))
           then (?td' ! j)\<lparr>df := concat_df (df (?td' ! j)) (df (?td' ! (j + 1)))\<rparr>
           else ?td' ! j)"
        using 1(1)[OF lt refl _ refl refl] True j by simp
      have step: "merge_loop to_csv td i out = merge_loop to_csv ?td' (i + 1) out"
        using True lt by (subst merge_loop.simps) (simp add: Let_def)
      show ?thesis
      proof (cases "j = i")
        case True
        then show ?thesis using ih step \<open>i + 1 < length td \<and> _\<close> lt by simp
      next
        case False
        then show ?thesis using ih step j lt by (auto simp: nth_list_update)
      qed
    next
      case False
      have step: "merge_loop to_csv td i out
                  = merge_loop to_csv td (i + 1) (out @ [emit to_csv (td ! i)])"
        using False lt by (subst merge_loop.simps) (auto simp add: Let_def)
      have ih: "fst (merge_loop to_csv td (i + 1) (out @ [emit to_csv (td ! i)])) ! j =
          (if i + 1 \<le> j \<and> j + 1 < length td \<and> should_merge (td ! j) (td ! (j + 1))
           then (td ! j)\<lparr>df := concat_df (df (td ! j)) (df (td ! (j + 1)))\<rparr>
           else td ! j)"
        using 1(2)[OF lt refl] False j by blast
      show ?thesis
      proof (cases "j = i")
        case True
        then show ?thesis using ih step False by auto
      next
        case False
        then show ?thesis using ih step by auto
      qed
    qed
  qed
qed

lemma merge_loop_no_merge:
  "no_adjacent_merge (drop i td) \<Longrightarrow>
   merge_loop to_csv td i out = (td, out @ map (emit to_csv) (drop i td))"
proof (induction to_csv td i out rule: merge_loop.induct)
  case (1 to_csv td i out)
  note na = \<open>no_adjacent_merge (drop i td)\<close>
  show ?case
  proof (cases "i < length td")
    case False
    then show ?thesis by (subst merge_loop.simps) simp
  next
    case lt: True
    have d: "drop i td = td ! i # drop (i + 1) td"
      using lt by (simp add: Cons_nth_drop_Suc)
    have nm: "\<not> (i + 1 < length td \<and> should_merge (td ! i) (td ! (i + 1)))"
    proof
      assume a: "i + 1 < length td \<and> should_merge (td ! i) (td ! (i + 1))"
      then have "drop i td = td ! i # td ! (i + 1) # drop (i + 2) td"
        using lt by (metis Cons_nth_drop_Suc Suc_eq_plus1 add_2_eq_Suc')
      with na a show False by simp
    qed
    have na': "no_adjacent_merge (drop (i + 1) td)"
    proof (cases "drop (i + 1) td")
      case Nil
      then show ?thesis by simp
    next
      case (Cons b rest)
      with na d show ?thesis by simp
    qed
    have step: "merge_loop to_csv td i out
                = merge_loop to_csv td (i + 1) (out @ [emit to_csv (td ! i)])"
      using nm lt by (subst merge_loop.simps) (auto simp add: Let_def)
    show ?thesis using 1(2)[OF lt refl _ na'] nm step d by auto
  qed
qed

lemma parse_csvs_append:
  "parse_csvs read_csv (xs @ ys) = parse_csvs read_csv xs @ parse_csvs read_csv ys"
  by (induction xs) (auto split: option.splits)

lemma sort_key_two:
  "page a \<le> page b \<Longrightarrow> sort_key page [a, b] = [a, b]"
  by simp

lemma merge_two_parsed:
  assumes "parse_entry read_csv x = Some a" and "parse_entry read_csv y = Some b"
    and "page a \<le> page b"
  shows "merge_cross_page_tables read_csv to_csv [x, y] =
           (if should_merge a b then [emit to_csv b] else [emit to_csv a, emit to_csv b])"
  using assms by (simp add: merge_cross_page_tables_def snd_merge_loop)

lemma merge_cross_page_tables_unmerged:
  "merge_cross_page_tables read_csv to_csv csv_results
     = map (emit to_csv) (unmerged (sort_key page (parse_csvs read_csv csv_results)))"
  by (cases "csv_results = []") (simp_all add: merge_cross_page_tables_def snd_merge_loop)

lemma should_merge_iff:
  "should_merge a b \<longleftrightarrow>
     page b = page a + 1
     \<and> length (columns (df a)) = length (columns (df b))
     \<and> columns (df a) = columns (df b)"
  by (simp add: should_merge_def Let_def)

lemma parse_sample_p3: "parse_entry plain_read_csv sample_p3 = Some entry_p3"
  by code_simp

lemma parse_sample_p4: "parse_entry plain_read_csv sample_p4 = Some entry_p4"
  by code_simp

lemma parse_sample_p5: "parse_entry plain_read_csv sample_p5 = Some entry_p5"
  by code_simp

lemma parse_sample_p4_other: "parse_entry plain_read_csv sample_p4_other = Some entry_p4_other"
  by code_simp

section \<open>Merging two fragments of one table\<close>

text \<open>
  Claim C1. Two fragments with the headers A, B on pages 3 and 4, with 2 and 3 rows, are
  to become one table of 5 rows under the file name of the page-3 fragment. The code
  stores the concatenated frame in the element for page 3 and then steps to the element for
  page 4 without emitting the former: the output is the page-4 fragment alone, with its own
  3 rows and its own file name.
\<close>

theorem merge_pages_3_4_emits_page_4_only:
  "merge_cross_page_tables plain_read_csv plain_to_csv [sample_p3, sample_p4] =
     [(''Page_04_Table_01.csv'', ''A,B\<newline>5,6\<newline>7,8\<newline>9,10\<newline>'')]"
  by code_simp

section \<open>The merge decision\<close>

text \<open>
  Claim C2. At every adjacent pair of the working list the sweep concatenates the next
  entry's rows onto the current entry exactly when the next page is the current page plus
  one, the column counts are equal and the ordered headers are equal; otherwise it leaves
  the current entry as it is. For two parsed fragments in page order, both are emitted
  exactly when the three conditions do not all hold. Fragments on pages 3 and 5 with the
  same headers, and fragments on pages 3 and 4 with headers A, B and A, C, come out as two
  tables.
\<close>

theorem merge_decision:
  assumes "j + 1 < length td"
    and "parse_entry read_csv x = Some a"
    and "parse_entry read_csv y = Some b"
    and "page a \<le> page b"
  shows
    "fst (merge_loop to_csv td 0 []) ! j =
       (if page (td ! (j + 1)) = page (td ! j) + 1
           \<and> length (columns (df (td ! j))) = length (columns (df (td ! (j + 1))))
           \<and> columns (df (td ! j)) = columns (df (td ! (j + 1)))
        then (td ! j)\<lparr>df := concat_df (df (td ! j)) (df (td ! (j + 1)))\<rparr>
        else td ! j)
     \<and> ((merge_cross_page_tables read_csv to_csv [x, y] = [emit to_csv a, emit to_csv b])
          = (\<not> (page b = page a + 1
                 \<and> length (columns (df a)) = length (columns (df b))
                 \<and> columns (df a) = columns (df b))))
     \<and> merge_cross_page_tables plain_read_csv plain_to_csv [sample_p3, sample_p5]
          = [sample_p3, sample_p5]
     \<and> merge_cross_page_tables plain_read_csv plain_to_csv [sample_p3, sample_p4_other]
          = [sample_p3, sample_p4_other]"
proof -
  have "j < length td" using assms(1) by simp
  from nth_fst_merge_loop[OF this, of to_csv 0 "[]"] assms(1)
  have A: "fst (merge_loop to_csv td 0 []) ! j =
       (if page (td ! (j + 1)) = page (td ! j) + 1
           \<and> length (columns (df (td ! j))) = length (columns (df (td ! (j + 1))))
           \<and> columns (df (td ! j)) = columns (df (td ! (j + 1)))
        then (td ! j)\<lparr>df := concat_df (df (td ! j)) (df (td ! (j + 1)))\<rparr>
        else td ! j)"
    unfolding should_merge_iff by simp
  have B: "(merge_cross_page_tables read_csv to_csv [x, y] = [emit to_csv a, emit to_csv b])
          = (\<not> (page b = page a + 1
                 \<and> length (columns (df a)) = length (columns (df b))
                 \<and> columns (df a) = columns (df b)))"
  proof (cases "should_merge a b")
    case True
    then have "merge_cross_page_tables read_csv to_csv [x, y] = [emit to_csv b]"
      using merge_two_parsed[OF assms(2,3,4), of to_csv] by simp
    then show ?thesis using True unfolding should_merge_iff by simp
  next
    case False
    then have "merge_cross_page_tables read_csv to_csv [x, y]
               = [emit to_csv a, emit to_csv b]"
      using merge_two_parsed[OF assms(2,3,4), of to_csv] by simp
    then show ?thesis using False unfolding should_merge_iff by simp
  qed
  have C: "merge_cross_page_tables plain_read_csv plain_to_csv [sample_p3, sample_p5]
          = [sample_p3, sample_p5]"
    by code_simp
  have D: "merge_cross_page_tables plain_read_csv plain_to_csv [sample_p3, sample_p4_other]
          = [sample_p3, sample_p4_other]"
    by code_simp
  show ?thesis
    apply (rule conjI)
     apply (rule A)
    apply (rule conjI)
     apply (rule B)
    apply (rule conjI)
     apply (rule C)
    apply (rule D)
    done
qed

theorem merge_decision_witness:
  "fst (merge_loop plain_to_csv [entry_p3, entry_p4, entry_p5] 0 []) ! 0 =
     \<lparr>fname = ''Page_03_Table_01.csv'', page = 3,
        df = \<lparr>columns = [''A'', ''B''],
               rows = [[''1'', ''2''], [''3'', ''4''], [''5'', ''6''], [''7'', ''8''],
                       [''9'', ''10'']]\<rparr>\<rparr>
   \<and> merge_cross_page_tables plain_read_csv plain_to_csv [sample_p3, sample_p5]
       = [emit plain_to_csv entry_p3, emit plain_to_csv entry_p5]"
proof -
  have h1: "0 + 1 < length [entry_p3, entry_p4, entry_p5]" by simp
  have h4: "page entry_p3 \<le> page entry_p5" by (simp add: entry_p3_def entry_p5_def)
  have v: "(if page ([entry_p3, entry_p4, entry_p5] ! (0 + 1))
                 = page ([entry_p3, entry_p4, entry_p5] ! 0) + 1
           \<and> length (columns (df ([entry_p3, entry_p4, entry_p5] ! 0)))
               = length (columns (df ([entry_p3, entry_p4, entry_p5] ! (0 + 1))))
           \<and> columns (df ([entry_p3, entry_p4, entry_p5] ! 0))
               = columns (df ([entry_p3, entry_p4, entry_p5] ! (0 + 1)))
        then ([entry_p3, entry_p4, entry_p5] ! 0)
               \<lparr>df := concat_df (df ([entry_p3, entry_p4, entry_p5] ! 0))
                        (df ([entry_p3, entry_p4, entry_p5] ! (0 + 1)))\<rparr>
        else [entry_p3, entry_p4, entry_p5] ! 0)
       = \<lparr>fname = ''Page_03_Table_01.csv'', page = 3,
        df = \<lparr>columns = [''A'', ''B''],
               rows = [[''1'', ''2''], [''3'', ''4''], [''5'', ''6''], [''7'', ''8''],
                       [''9'', ''10'']]\<rparr>\<rparr>"
    by (simp add: entry_p3_def entry_p4_def concat_df_def)
  have w: "\<not> (page entry_p5 = page entry_p3 + 1
                 \<and> length (columns (df entry_p3)) = length (columns (df entry_p5))
                 \<and> columns (df entry_p3) = columns (df entry_p5))"
    by (simp add: entry_p3_def entry_p5_def)
  note t = merge_decision[OF h1 parse_sample_p3 parse_sample_p5 h4, of plain_to_csv]
  from t have t1: "fst (merge_loop plain_to_csv [entry_p3, entry_p4, entry_p5] 0 []) ! 0 =
     \<lparr>fname = ''Page_03_Table_01.csv'', page = 3,
        df = \<lparr>columns = [''A'', ''B''],
               rows = [[''1'', ''2''], [''3'', ''4''], [''5'', ''6''], [''7'', ''8''],
                       [''9'', ''10'']]\<rparr>\<rparr>"
    unfolding v by (rule conjunct1)
  from t have "(merge_cross_page_tables plain_read_csv plain_to_csv [sample_p3, sample_p5]
                 = [emit plain_to_csv entry_p3, emit plain_to_csv entry_p5])
          = (\<not> (page entry_p5 = page entry_p3 + 1
                 \<and> length (columns (df entry_p3)) = length (columns (df entry_p5))
                 \<and> columns (df entry_p3) = columns (df entry_p5)))"
    by (rule conjunct1[OF conjunct2])
  with w have t2: "merge_cross_page_tables plain_read_csv plain_to_csv [sample_p3, sample_p5]
       = [emit plain_to_csv entry_p3, emit plain_to_csv entry_p5]"
    by (rule iffD2[rotated])
  from t1 t2 show ?thesis by (rule conjI)
qed

section \<open>The page number of a file name\<close>

text \<open>
  \<^verbatim>\<open>int\<close> on the pieces of a file name: leading zeros are read, the separator
  \<^verbatim>\<open>0x1C\<close> is not whitespace for it, and a string of more digits than the limit raises.
\<close>

lemma py_int_examples:
  "py_int ''03'' = Some 3"
  "py_int '' +12 '' = Some 12"
  "py_int ''-4'' = Some (- 4)"
  "py_int [CHR 0xA0, CHR ''4'', CHR 0x85] = Some 4"
  "py_int [CHR 0x1C, CHR ''4''] = None"
  "py_int [CHR ''4'', CHR 0x1F] = None"
  "py_int ''+ 4'' = None"
  "py_int [] = None"
  "py_int ''Table'' = None"
  by code_simp+

lemma py_int_digit_limit:
  assumes "int_max_str_digits < n"
  shows "py_int (replicate n (CHR ''1'')) = None"
proof -
  have s: "\<not> is_int_space (CHR ''1'')" by (simp add: is_int_space_def)
  have n: "n \<noteq> 0" using assms by simp
  have d: "dropWhile is_int_space (replicate n (CHR ''1'')) = replicate n (CHR ''1'')"
    using s by (simp add: dropWhile_replicate)
  have h: "hd (replicate n (CHR ''1'')) = CHR ''1''" using n by (cases n) simp_all
  have l: "\<not> length (replicate n (CHR ''1'')) \<le> int_max_str_digits"
    using assms by simp
  show ?thesis
    unfolding py_int_def Let_def rev_replicate d h using l by simp
qed

lemma parse_separator_name:
  "parse_entry read_csv (''Page_'' @ [CHR 0x1C] @ ''4_T.csv'', content) = None"
proof -
  have p: "py_index (py_split (CHR ''_'') (py_replace ''.csv'' [] (''Page_'' @ [CHR 0x1C] @ ''4_T.csv''))) 1
           = Some [CHR 0x1C, CHR ''4'']"
    by code_simp
  have i: "py_int [CHR 0x1C, CHR ''4''] = None" by code_simp
  show ?thesis by (simp only: parse_entry_def prod.case Let_def p i option.case)
qed

section \<open>Lists without mergeable neighbours\<close>

text \<open>
  Claim C5. When no two neighbours of the page-sorted list satisfy the merge predicate, the
  sweep changes no entry and the output is the parsed entries in ascending page order,
  entries of the same page in their input order; each output pair is the entry's own file
  name with the text written from the entry's own frame, and the file names of the parsed
  entries are those of the input entries that parse, in input order.
\<close>

theorem merge_without_neighbours:
  assumes "no_adjacent_merge (sort_key page (parse_csvs read_csv csv_results))"
  shows
    "merge_cross_page_tables read_csv to_csv csv_results
       = map (\<lambda>e. (fname e, to_csv (df e)))
           (sort_key page (parse_csvs read_csv csv_results))
     \<and> fst (merge_loop to_csv (sort_key page (parse_csvs read_csv csv_results)) 0 [])
         = sort_key page (parse_csvs read_csv csv_results)
     \<and> sorted (map page (sort_key page (parse_csvs read_csv csv_results)))
     \<and> (\<forall>k. filter (\<lambda>e. page e = k) (sort_key page (parse_csvs read_csv csv_results))
              = filter (\<lambda>e. page e = k) (parse_csvs read_csv csv_results))
     \<and> map fname (parse_csvs read_csv csv_results)
         = map fst (filter (\<lambda>fc. parse_entry read_csv fc \<noteq> None) csv_results)"
proof -
  let ?td = "sort_key page (parse_csvs read_csv csv_results)"
  have loop: "merge_loop to_csv ?td 0 [] = (?td, map (emit to_csv) ?td)"
    using merge_loop_no_merge[of 0 ?td to_csv "[]"] assms by simp
  have em: "emit to_csv = (\<lambda>e. (fname e, to_csv (df e)))"
    by (rule ext) (simp add: emit_def)
  have A: "merge_cross_page_tables read_csv to_csv csv_results
             = map (\<lambda>e. (fname e, to_csv (df e))) ?td"
  proof (cases "csv_results = []")
    case True
    then show ?thesis by (simp add: merge_cross_page_tables_def)
  next
    case False
    then show ?thesis by (simp add: merge_cross_page_tables_def loop Let_def em)
  qed
  have B: "fst (merge_loop to_csv ?td 0 []) = ?td" by (simp add: loop)
  have C: "sorted (map page ?td)" by (rule sorted_sort_key)
  have D: "\<forall>k. filter (\<lambda>e. page e = k) ?td
               = filter (\<lambda>e. page e = k) (parse_csvs read_csv csv_results)"
    by (simp add: sort_key_stable)
  have E: "map fname (parse_csvs read_csv csv_results)
           = map fst (filter (\<lambda>fc. parse_entry read_csv fc \<noteq> None) csv_results)"
  proof (induction csv_results)
    case Nil
    then show ?case by simp
  next
    case (Cons fc rest)
    show ?case
    proof (cases "parse_entry read_csv fc")
      case None
      then show ?thesis using Cons.IH by simp
    next
      case (Some e)
      then have "fname e = fst fc"
        by (cases fc) (auto simp: parse_entry_def Let_def split: option.splits)
      then show ?thesis using Cons.IH Some by simp
    qed
  qed
  from A B C D E show ?thesis by (intro conjI)
qed

theorem merge_without_neighbours_witness:
  "merge_cross_page_tables plain_read_csv plain_to_csv
     [sample_p5, sample_p3_second, sample_p3, sample_p4_other]
   = [(''Page_03_Table_02.csv'', ''X,Y\<newline>7,8\<newline>''),
      (''Page_03_Table_01.csv'', ''A,B\<newline>1,2\<newline>3,4\<newline>''),
      (''Page_04_Table_01.csv'', ''A,C\<newline>5,6\<newline>''),
      (''Page_05_Table_01.csv'', ''A,B\<newline>5,6\<newline>7,8\<newline>9,10\<newline>'')]"
proof -
  have h: "no_adjacent_merge
             (sort_key page
                (parse_csvs plain_read_csv
                   [sample_p5, sample_p3_second, sample_p3, sample_p4_other]))"
    by code_simp
  have r: "map (\<lambda>e. (fname e, plain_to_csv (df e)))
             (sort_key page
                (parse_csvs plain_read_csv
                   [sample_p5, sample_p3_second, sample_p3, sample_p4_other]))
           = [(''Page_03_Table_02.csv'', ''X,Y\<newline>7,8\<newline>''),
              (''Page_03_Table_01.csv'', ''A,B\<newline>1,2\<newline>3,4\<newline>''),
              (''Page_04_Table_01.csv'', ''A,C\<newline>5,6\<newline>''),
              (''Page_05_Table_01.csv'', ''A,B\<newline>5,6\<newline>7,8\<newline>9,10\<newline>'')]"
    by code_simp
  have "merge_cross_page_tables plain_read_csv plain_to_csv
          [sample_p5, sample_p3_second, sample_p3, sample_p4_other]
        = map (\<lambda>e. (fname e, plain_to_csv (df e)))
            (sort_key page
               (parse_csvs plain_read_csv
                  [sample_p5, sample_p3_second, sample_p3, sample_p4_other]))"
    using merge_without_neighbours[OF h, of plain_to_csv] by (rule conjunct1)
  then show ?thesis unfolding r .
qed

section \<open>Entries that do not parse\<close>

text \<open>
  Claim C6. An entry whose file name gives no page number (no second piece between
  underscores, or a piece on which \<^verbatim>\<open>int\<close> raises), or whose text the reader rejects,
  is left out of the merge set; the output is the output for the list without it, and the
  other entries are processed as if it were absent. The merger is a total function: no
  input makes it raise.
\<close>

theorem unparseable_entry_dropped:
  assumes "(case py_index (py_split (CHR ''_'') (py_replace ''.csv'' [] name)) 1 of
              None \<Rightarrow> True
            | Some p \<Rightarrow> py_int p = None)
           \<or> read_csv content = None"
  shows
    "parse_entry read_csv (name, content) = None
     \<and> parse_csvs read_csv (before @ (name, content) # after)
         = parse_csvs read_csv (before @ after)
     \<and> merge_cross_page_tables read_csv to_csv (before @ (name, content) # after)
         = merge_cross_page_tables read_csv to_csv (before @ after)"
proof -
  have A: "parse_entry read_csv (name, content) = None"
    using assms by (auto simp: parse_entry_def Let_def split: option.splits)
  have B: "parse_csvs read_csv (before @ (name, content) # after)
           = parse_csvs read_csv (before @ after)"
    by (simp add: parse_csvs_append A)
  have C: "merge_cross_page_tables read_csv to_csv (before @ (name, content) # after)
           = merge_cross_page_tables read_csv to_csv (before @ after)"
    by (simp only: merge_cross_page_tables_unmerged B)
  from A B C show ?thesis by (intro conjI)
qed

theorem unparseable_entry_dropped_witness:
  "parse_entry plain_read_csv (''Table.csv'', ''A,B\<newline>1,2\<newline>'') = None
   \<and> merge_cross_page_tables plain_read_csv plain_to_csv
        ([sample_p3] @ (''Table.csv'', ''A,B\<newline>1,2\<newline>'') # [sample_p5])
       = [(''Page_03_Table_01.csv'', ''A,B\<newline>1,2\<newline>3,4\<newline>''),
          (''Page_05_Table_01.csv'', ''A,B\<newline>5,6\<newline>7,8\<newline>9,10\<newline>'')]
   \<and> parse_entry plain_read_csv
        (''Page_'' @ [CHR 0x1C] @ ''4_T.csv'', ''A,B\<newline>1,2\<newline>'') = None
   \<and> merge_cross_page_tables plain_read_csv plain_to_csv
        ([] @ (''Page_'' @ [CHR 0x1C] @ ''4_T.csv'', ''A,B\<newline>1,2\<newline>'') # []) = []"
proof -
  have h: "(case py_index (py_split (CHR ''_'') (py_replace ''.csv'' [] ''Table.csv'')) 1 of
              None \<Rightarrow> True
            | Some p \<Rightarrow> py_int p = None)
           \<or> plain_read_csv ''A,B\<newline>1,2\<newline>'' = None"
    by code_simp
  have g: "(case py_index (py_split (CHR ''_'')
                   (py_replace ''.csv'' [] (''Page_'' @ [CHR 0x1C] @ ''4_T.csv''))) 1 of
              None \<Rightarrow> True
            | Some p \<Rightarrow> py_int p = None)
           \<or> plain_read_csv ''A,B\<newline>1,2\<newline>'' = None"
    by code_simp
  have m: "merge_cross_page_tables plain_read_csv plain_to_csv ([sample_p3] @ [sample_p5])
           = [(''Page_03_Table_01.csv'', ''A,B\<newline>1,2\<newline>3,4\<newline>''),
              (''Page_05_Table_01.csv'', ''A,B\<newline>5,6\<newline>7,8\<newline>9,10\<newline>'')]"
    by code_simp
  have e: "merge_cross_page_tables plain_read_csv plain_to_csv ([] @ []) = []"
    by (simp add: merge_cross_page_tables_def)
  note t = unparseable_entry_dropped[where name = "''Table.csv''" and read_csv = plain_read_csv
      and content = "''A,B\<newline>1,2\<newline>''" and before = "[sample_p3]"
      and after = "[sample_p5]" and to_csv = plain_to_csv, OF h]
  note u = unparseable_entry_dropped[where name = "''Page_'' @ [CHR 0x1C] @ ''4_T.csv''"
      and read_csv = plain_read_csv and content = "''A,B\<newline>1,2\<newline>''"
      and before = "[]" and after = "[]" and to_csv = plain_to_csv, OF g]
  have a: "parse_entry plain_read_csv (''Table.csv'', ''A,B\<newline>1,2\<newline>'') = None"
    using t by (rule conjunct1)
  have b: "merge_cross_page_tables plain_read_csv plain_to_csv
             ([sample_p3] @ (''Table.csv'', ''A,B\<newline>1,2\<newline>'') # [sample_p5])
           = merge_cross_page_tables plain_read_csv plain_to_csv ([sample_p3] @ [sample_p5])"
    using t by (rule conjunct2[OF conjunct2])
  have c: "parse_entry plain_read_csv
             (''Page_'' @ [CHR 0x1C] @ ''4_T.csv'', ''A,B\<newline>1,2\<newline>'') = None"
    using u by (rule conjunct1)
  have d: "merge_cross_page_tables plain_read_csv plain_to_csv
             ([] @ (''Page_'' @ [CHR 0x1C] @ ''4_T.csv'', ''A,B\<newline>1,2\<newline>'') # [])
           = merge_cross_page_tables plain_read_csv plain_to_csv ([] @ [])"
    using u by (rule conjunct2[OF conjunct2])
  from a b[unfolded m] c d[unfolded e] show ?thesis by (intro conjI)
qed

section \<open>Properties of the page loop\<close>

lemma process_page_eq:
  "process_page lib img_dir words_dir page_num pg out =
     \<lparr>file_pairs = file_pairs out @ [(img_path_of img_dir page_num, json_path_of words_dir page_num)],
      img_files = img_files out @ [(img_path_of img_dir page_num, get_pixmap pg (page_zoom pg))],
      json_files = json_files out @ [(json_path_of words_dir page_num, page_words lib pg)],
      log_lines = log_lines out @ page_log lib page_num pg\<rparr>"
  by (cases "decision_logic (length (get_text pg)) (length (get_images pg) > 0)";
      cases "ocr_words lib (get_pixmap pg (page_zoom pg))")
     (auto simp: process_page_def Let_def page_use_ocr_def page_mode_label_def page_zoom_def
        img_path_of_def json_path_of_def page_words_def page_ocr_raised_def page_log_def)

lemma process_pages_eq:
  "process_pages lib img_dir words_dir n pages out =
     \<lparr>file_pairs = file_pairs out
         @ map (\<lambda>k. (img_path_of img_dir k, json_path_of words_dir k)) [n..<n + length pages],
      img_files = img_files out
         @ map (\<lambda>(k, pg). (img_path_of img_dir k, get_pixmap pg (page_zoom pg)))
             (enumerate n pages),
      json_files = json_files out
         @ map (\<lambda>(k, pg). (json_path_of words_dir k, page_words lib pg)) (enumerate n pages),
      log_lines = log_lines out
         @ concat (map (\<lambda>(k, pg). page_log lib k pg) (enumerate n pages))\<rparr>"
proof (induction pages arbitrary: n out)
  case Nil
  then show ?case by simp
next
  case (Cons pg rest)
  have u: "[n..<n + length (pg # rest)] = n # [Suc n..<Suc n + length rest]"
    by (simp add: upt_rec)
  show ?case
    unfolding process_pages.simps Cons.IH process_page_eq u
    by simp
qed

lemma process_pdf_to_data_eq:
  "process_pdf_to_data lib doc output_dir =
     \<lparr>file_pairs =
         map (\<lambda>k. (img_path_of (os_path_join output_dir ''images'') k,
                   json_path_of (os_path_join output_dir ''words'') k)) [0..<length doc],
      img_files =
         map (\<lambda>(k, pg). (img_path_of (os_path_join output_dir ''images'') k,
                          get_pixmap pg (page_zoom pg))) (enumerate 0 doc),
      json_files =
         map (\<lambda>(k, pg). (json_path_of (os_path_join output_dir ''words'') k,
                          page_words lib pg)) (enumerate 0 doc),
      log_lines =
         Header (length doc) # concat (map (\<lambda>(k, pg). page_log lib k pg) (enumerate 0 doc))\<rparr>"
  by (simp add: process_pdf_to_data_def Let_def process_pages_eq)

lemma sample_native_vals:
  "page_use_ocr sample_native_page = False"
  "page_mode_label sample_native_page = ''Native (Text)''"
  "page_zoom sample_native_page = 1"
  by (simp_all add: page_use_ocr_def page_mode_label_def page_zoom_def smart_zoom_def
        decision_logic_def sample_native_page_def)

lemma sample_hybrid_vals:
  "page_use_ocr sample_hybrid_page = True"
  "page_mode_label sample_hybrid_page = ''OCR (Hybrid)''"
  "page_zoom sample_hybrid_page = 1"
  by (simp_all add: page_use_ocr_def page_mode_label_def page_zoom_def smart_zoom_def
        decision_logic_def sample_hybrid_page_def)

lemma sample_scanned_vals:
  "page_use_ocr sample_scanned_page = True"
  "page_mode_label sample_scanned_page = ''OCR (Scanned)''"
  "page_zoom sample_scanned_page = 2"
  by (simp_all add: page_use_ocr_def page_mode_label_def page_zoom_def smart_zoom_def
        decision_logic_def sample_scanned_page_def)

lemma sample_failing_vals:
  "page_use_ocr sample_failing_page = True"
  "page_mode_label sample_failing_page = ''OCR (Scanned)''"
  "page_zoom sample_failing_page = 2"
  by (simp_all add: page_use_ocr_def page_mode_label_def page_zoom_def smart_zoom_def
        decision_logic_def sample_failing_page_def)

section \<open>The extraction mode of a page\<close>

text \<open>
  Claim C3. A page with more than 100 characters of text and no embedded image is read in
  native mode; with more than 100 characters and at least one image it is read by OCR as a
  hybrid page; with at most 100 characters it is read by OCR as a scanned page, whatever
  the number of images. The three cases cover every page. The label is the one printed for
  the page, and the mode decides which extractor fills the page's JSON file.
\<close>

theorem page_classification:
  "(100 < length (get_text pg) \<and> length (get_images pg) = 0
      \<longrightarrow> \<not> page_use_ocr pg \<and> page_mode_label pg = ''Native (Text)'')
   \<and> (100 < length (get_text pg) \<and> 0 < length (get_images pg)
      \<longrightarrow> page_use_ocr pg \<and> page_mode_label pg = ''OCR (Hybrid)'')
   \<and> (length (get_text pg) \<le> 100
      \<longrightarrow> page_use_ocr pg \<and> page_mode_label pg = ''OCR (Scanned)'')
   \<and> log_lines (process_page lib img_dir words_dir n pg out) ! length (log_lines out)
       = PageLine (n + 1) (page_mode_label pg) (length (get_text pg)) (length (get_images pg))
   \<and> json_files (process_page lib img_dir words_dir n pg out)
       = json_files out
         @ [(json_path_of words_dir n,
             if page_use_ocr pg then fst (ocr_words lib (get_pixmap pg (page_zoom pg)))
             else native_words (page_zoom pg) (get_text_words pg))]"
proof -
  have A: "100 < length (get_text pg) \<and> length (get_images pg) = 0
      \<longrightarrow> \<not> page_use_ocr pg \<and> page_mode_label pg = ''Native (Text)''"
    by (simp add: page_use_ocr_def page_mode_label_def decision_logic_def)
  have B: "100 < length (get_text pg) \<and> 0 < length (get_images pg)
      \<longrightarrow> page_use_ocr pg \<and> page_mode_label pg = ''OCR (Hybrid)''"
    by (simp add: page_use_ocr_def page_mode_label_def decision_logic_def)
  have C: "length (get_text pg) \<le> 100
      \<longrightarrow> page_use_ocr pg \<and> page_mode_label pg = ''OCR (Scanned)''"
    by (simp add: page_use_ocr_def page_mode_label_def decision_logic_def)
  have D: "log_lines (process_page lib img_dir words_dir n pg out) ! length (log_lines out)
       = PageLine (n + 1) (page_mode_label pg) (length (get_text pg)) (length (get_images pg))"
    by (simp add: process_page_eq page_log_def)
  have E: "json_files (process_page lib img_dir words_dir n pg out)
       = json_files out
         @ [(json_path_of words_dir n,
             if page_use_ocr pg then fst (ocr_words lib (get_pixmap pg (page_zoom pg)))
             else native_words (page_zoom pg) (get_text_words pg))]"
    by (simp add: process_page_eq page_words_def)
  from A B C D E show ?thesis by (intro conjI)
qed

theorem page_classification_witness:
  "(100 < length (get_text sample_native_page) \<and> length (get_images sample_native_page) = 0
    \<and> \<not> page_use_ocr sample_native_page
    \<and> page_mode_label sample_native_page = ''Native (Text)'')
   \<and> (100 < length (get_text sample_hybrid_page) \<and> 0 < length (get_images sample_hybrid_page)
    \<and> page_use_ocr sample_hybrid_page
    \<and> page_mode_label sample_hybrid_page = ''OCR (Hybrid)'')
   \<and> (length (get_text sample_scanned_page) \<le> 100
    \<and> page_use_ocr sample_scanned_page
    \<and> page_mode_label sample_scanned_page = ''OCR (Scanned)'')"
proof -
  have n: "100 < length (get_text sample_native_page)
           \<and> length (get_images sample_native_page) = 0"
    by (simp add: sample_native_page_def)
  have h: "100 < length (get_text sample_hybrid_page)
           \<and> 0 < length (get_images sample_hybrid_page)"
    by (simp add: sample_hybrid_page_def)
  have s: "length (get_text sample_scanned_page) \<le> 100"
    by (simp add: sample_scanned_page_def)
  from page_classification[of sample_native_page sample_lib "''i''" "''w''" 0
        "\<lparr>file_pairs = [], img_files = [], json_files = [], log_lines = []\<rparr>"] n
  have N: "\<not> page_use_ocr sample_native_page
           \<and> page_mode_label sample_native_page = ''Native (Text)''"
    by blast
  from page_classification[of sample_hybrid_page sample_lib "''i''" "''w''" 0
        "\<lparr>file_pairs = [], img_files = [], json_files = [], log_lines = []\<rparr>"] h
  have H: "page_use_ocr sample_hybrid_page
           \<and> page_mode_label sample_hybrid_page = ''OCR (Hybrid)''"
    by blast
  from page_classification[of sample_scanned_page sample_lib "''i''" "''w''" 0
        "\<lparr>file_pairs = [], img_files = [], json_files = [], log_lines = []\<rparr>"] s
  have S: "page_use_ocr sample_scanned_page
           \<and> page_mode_label sample_scanned_page = ''OCR (Scanned)''"
    by blast
  from n h s N H S show ?thesis by blast
qed

section \<open>The rendering scale\<close>

text \<open>
  Claim C4. The scale at which a page is rendered is 2.0 exactly when the page is read by
  OCR and its default raster is less than 1500 pixels wide; in every other case it is 1.0.
  The image saved for the page is the page rendered at that scale.
\<close>

theorem rendering_scale:
  "(page_zoom pg = 2) = (page_use_ocr pg \<and> default_pix_width pg < 1500)
   \<and> (page_zoom pg = 1) = (\<not> (page_use_ocr pg \<and> default_pix_width pg < 1500))
   \<and> img_files (process_page lib img_dir words_dir n pg out)
       = img_files out @ [(img_path_of img_dir n, get_pixmap pg (page_zoom pg))]"
  by (simp add: page_zoom_def smart_zoom_def process_page_eq)

theorem rendering_scale_witness:
  "page_zoom sample_scanned_page = 2 \<and> page_zoom sample_hybrid_page = 1
   \<and> page_zoom sample_native_page = 1
   \<and> img_files (process_page sample_lib ''images'' ''words'' 0 sample_scanned_page
        \<lparr>file_pairs = [], img_files = [], json_files = [], log_lines = []\<rparr>)
      = [(''images/page_000.jpg'', ''scan@2x'')]"
proof -
  have a: "page_use_ocr sample_scanned_page \<and> default_pix_width sample_scanned_page < 1500"
    by (simp add: sample_scanned_vals) (simp add: sample_scanned_page_def)
  have b: "\<not> (page_use_ocr sample_hybrid_page \<and> default_pix_width sample_hybrid_page < 1500)"
    by (simp add: sample_hybrid_page_def)
  have c: "\<not> (page_use_ocr sample_native_page \<and> default_pix_width sample_native_page < 1500)"
    by (simp add: sample_native_vals)
  have p: "img_path_of ''images'' 0 = ''images/page_000.jpg''"
    by code_simp
  have g: "get_pixmap sample_scanned_page 2 = ''scan@2x''"
    by (simp add: sample_scanned_page_def)
  note t = rendering_scale[of sample_scanned_page sample_lib "''images''" "''words''" 0
        "\<lparr>file_pairs = [], img_files = [], json_files = [], log_lines = []\<rparr>"]
  from t a have z: "page_zoom sample_scanned_page = 2" by blast
  from t have "img_files (process_page sample_lib ''images'' ''words'' 0 sample_scanned_page
        \<lparr>file_pairs = [], img_files = [], json_files = [], log_lines = []\<rparr>)
      = [(img_path_of ''images'' 0, get_pixmap sample_scanned_page (page_zoom sample_scanned_page))]"
    by simp
  then have i: "img_files (process_page sample_lib ''images'' ''words'' 0 sample_scanned_page
        \<lparr>file_pairs = [], img_files = [], json_files = [], log_lines = []\<rparr>)
      = [(''images/page_000.jpg'', ''scan@2x'')]"
    unfolding z p g .
  from rendering_scale[of sample_hybrid_page sample_lib "''images''" "''words''" 0
        "\<lparr>file_pairs = [], img_files = [], json_files = [], log_lines = []\<rparr>"] b
  have y: "page_zoom sample_hybrid_page = 1" by blast
  from rendering_scale[of sample_native_page sample_lib "''images''" "''words''" 0
        "\<lparr>file_pairs = [], img_files = [], json_files = [], log_lines = []\<rparr>"] c
  have x: "page_zoom sample_native_page = 1" by blast
  from z y x i show ?thesis by (intro conjI)
qed

section \<open>Native tokens\<close>

text \<open>
  Claim C9. On a page read in native mode every token carries the four coordinates of its
  word box in the text layer, each multiplied by the scale at which the page's image is
  rendered, together with the word's text.
\<close>

theorem native_tokens_scaled:
  assumes "\<not> page_use_ocr pg"
  shows
    "json_files (process_page lib img_dir words_dir n pg out)
       = json_files out
         @ [(json_path_of words_dir n,
             map (\<lambda>w. [(''bbox'', JList [JNum (w0 w * page_zoom pg), JNum (w1 w * page_zoom pg),
                                         JNum (w2 w * page_zoom pg), JNum (w3 w * page_zoom pg)]),
                        (''text'', JStr (w4 w))])
               (get_text_words pg))]
     \<and> img_files (process_page lib img_dir words_dir n pg out)
         = img_files out @ [(img_path_of img_dir n, get_pixmap pg (page_zoom pg))]
     \<and> page_zoom pg = 1"
  using assms
  by (simp add: process_page_eq page_words_def native_words_def page_zoom_def smart_zoom_def)

theorem native_tokens_scaled_witness:
  "json_files (process_page sample_lib ''images'' ''words'' 0 sample_native_page
        \<lparr>file_pairs = [], img_files = [], json_files = [], log_lines = []\<rparr>)
     = [(''words/page_000_words.json'',
         [[(''bbox'', JList [JNum 10, JNum 20, JNum 30, JNum 40]), (''text'', JStr ''Total'')]])]"
proof -
  have h: "\<not> page_use_ocr sample_native_page" by (simp add: sample_native_vals)
  have p: "json_path_of ''words'' 0 = ''words/page_000_words.json''" by code_simp
  have w: "get_text_words sample_native_page
           = [\<lparr>w0 = 10, w1 = 20, w2 = 30, w3 = 40, w4 = ''Total''\<rparr>]"
    by (simp add: sample_native_page_def)
  from native_tokens_scaled[OF h, of sample_lib "''images''" "''words''" 0
         "\<lparr>file_pairs = [], img_files = [], json_files = [], log_lines = []\<rparr>"]
  show ?thesis
    by (simp add: p w sample_native_vals)
qed

section \<open>One pair of files for every page\<close>

text \<open>
  Claim C8. The list returned for a document has one pair of paths for every page, in page
  order: the pair at index \<open>k\<close> names the image and the JSON file of page \<open>k\<close>. Every
  iteration appends exactly one pair, whatever the mode of the page and whether or not
  the OCR of the page raised.
\<close>

theorem one_pair_per_page:
  "length (file_pairs (process_pdf_to_data lib doc output_dir)) = length doc
   \<and> file_pairs (process_pdf_to_data lib doc output_dir)
       = map (\<lambda>k. (img_path_of (os_path_join output_dir ''images'') k,
                    json_path_of (os_path_join output_dir ''words'') k)) [0..<length doc]
   \<and> file_pairs (process_page lib img_dir words_dir n pg out)
       = file_pairs out @ [(img_path_of img_dir n, json_path_of words_dir n)]"
  by (simp add: process_pdf_to_data_eq process_page_eq)

theorem one_pair_per_page_witness:
  "file_pairs (process_pdf_to_data sample_lib
      [sample_native_page, sample_failing_page, sample_scanned_page] ''/tmp/run'')
   = [(''/tmp/run/images/page_000.jpg'', ''/tmp/run/words/page_000_words.json''),
      (''/tmp/run/images/page_001.jpg'', ''/tmp/run/words/page_001_words.json''),
      (''/tmp/run/images/page_002.jpg'', ''/tmp/run/words/page_002_words.json'')]"
proof -
  have p: "map (\<lambda>k. (img_path_of (os_path_join ''/tmp/run'' ''images'') k,
                    json_path_of (os_path_join ''/tmp/run'' ''words'') k)) [0..<3]
           = [(''/tmp/run/images/page_000.jpg'', ''/tmp/run/words/page_000_words.json''),
              (''/tmp/run/images/page_001.jpg'', ''/tmp/run/words/page_001_words.json''),
              (''/tmp/run/images/page_002.jpg'', ''/tmp/run/words/page_002_words.json'')]"
    by code_simp
  have l: "length [sample_native_page, sample_failing_page, sample_scanned_page] = 3"
    by simp
  from one_pair_per_page[of sample_lib
         "[sample_native_page, sample_failing_page, sample_scanned_page]" "''/tmp/run''"
         "''i''" "''w''" 0 sample_native_page
         "\<lparr>file_pairs = [], img_files = [], json_files = [], log_lines = []\<rparr>"]
  have "file_pairs (process_pdf_to_data sample_lib
          [sample_native_page, sample_failing_page, sample_scanned_page] ''/tmp/run'')
        = map (\<lambda>k. (img_path_of (os_path_join ''/tmp/run'' ''images'') k,
                    json_path_of (os_path_join ''/tmp/run'' ''words'') k))
            [0..<length [sample_native_page, sample_failing_page, sample_scanned_page]]"
    by blast
  then show ?thesis unfolding l p .
qed

section \<open>A page whose OCR fails\<close>

text \<open>
  Claim C7. When the OCR engine raises on a page read by OCR, the exception is caught and
  a line is printed for it, the JSON file of the page holds an empty token list, and the
  run goes on: the document still yields one pair and one JSON file for every page, and
  the file of every page holds the tokens of that page.
\<close>

theorem ocr_failure_isolated:
  assumes "k < length doc"
    and "page_use_ocr (doc ! k)"
    and "image_to_data lib
           (preprocess_image_for_ocr lib (get_pixmap (doc ! k) (page_zoom (doc ! k)))) = None"
  shows
    "json_files (process_pdf_to_data lib doc output_dir) ! k
       = (json_path_of (os_path_join output_dir ''words'') k, [])
     \<and> OCRError (k + 1) \<in> set (log_lines (process_pdf_to_data lib doc output_dir))
     \<and> length (file_pairs (process_pdf_to_data lib doc output_dir)) = length doc
     \<and> length (json_files (process_pdf_to_data lib doc output_dir)) = length doc
     \<and> (\<forall>j. j < length doc \<longrightarrow>
          json_files (process_pdf_to_data lib doc output_dir) ! j
            = (json_path_of (os_path_join output_dir ''words'') j, page_words lib (doc ! j)))"
proof -
  have ow: "ocr_words lib (get_pixmap (doc ! k) (page_zoom (doc ! k))) = ([], False)"
    using assms(3) by (simp add: ocr_words_def Let_def)
  have pw: "page_words lib (doc ! k) = []"
    using assms(2) ow by (simp add: page_words_def)
  have pr: "page_ocr_raised lib (doc ! k)"
    using assms(2) ow by (simp add: page_ocr_raised_def)
  have nth: "\<And>j. j < length doc \<Longrightarrow>
      json_files (process_pdf_to_data lib doc output_dir) ! j
        = (json_path_of (os_path_join output_dir ''words'') j, page_words lib (doc ! j))"
    by (simp add: process_pdf_to_data_eq nth_enumerate_eq)
  have A: "json_files (process_pdf_to_data lib doc output_dir) ! k
       = (json_path_of (os_path_join output_dir ''words'') k, [])"
    using nth[OF assms(1)] pw by simp
  have "(k, doc ! k) \<in> set (enumerate 0 doc)"
    using assms(1) by (simp add: in_set_enumerate_eq)
  moreover have "OCRError (k + 1) \<in> set (page_log lib k (doc ! k))"
    using pr by (simp add: page_log_def)
  ultimately have B: "OCRError (k + 1) \<in> set (log_lines (process_pdf_to_data lib doc output_dir))"
    by (force simp: process_pdf_to_data_eq)
  have C: "length (file_pairs (process_pdf_to_data lib doc output_dir)) = length doc"
    by (simp add: process_pdf_to_data_eq)
  have D: "length (json_files (process_pdf_to_data lib doc output_dir)) = length doc"
    by (simp add: process_pdf_to_data_eq)
  from A B C D nth show ?thesis by blast
qed

theorem ocr_failure_isolated_witness:
  "json_files (process_pdf_to_data sample_lib
       [sample_native_page, sample_failing_page, sample_scanned_page] ''/tmp/run'') ! 1
     = (''/tmp/run/words/page_001_words.json'', [])
   \<and> OCRError 2 \<in> set (log_lines (process_pdf_to_data sample_lib
       [sample_native_page, sample_failing_page, sample_scanned_page] ''/tmp/run''))
   \<and> json_files (process_pdf_to_data sample_lib
       [sample_native_page, sample_failing_page, sample_scanned_page] ''/tmp/run'') ! 2
     = (''/tmp/run/words/page_002_words.json'',
        [[(''text'', JStr ''Amount''), (''bbox'', JList [JInt 5, JInt 6, JInt 75, JInt 14])]])"
proof -
  let ?doc = "[sample_native_page, sample_failing_page, sample_scanned_page]"
  have h1: "1 < length ?doc" by simp
  have h2: "page_use_ocr (?doc ! 1)" by (simp add: sample_failing_vals)
  have h3: "image_to_data sample_lib
              (preprocess_image_for_ocr sample_lib
                 (get_pixmap (?doc ! 1) (page_zoom (?doc ! 1)))) = None"
    by (simp add: sample_failing_vals)
       (simp add: sample_lib_def sample_failing_page_def preprocess_image_for_ocr_def)
  have p1: "json_path_of (os_path_join ''/tmp/run'' ''words'') 1
            = ''/tmp/run/words/page_001_words.json''" by code_simp
  have p2: "json_path_of (os_path_join ''/tmp/run'' ''words'') 2
            = ''/tmp/run/words/page_002_words.json''" by code_simp
  have ow: "ocr_words sample_lib ''scan@2x''
            = ([[(''text'', JStr ''Amount''),
                 (''bbox'', JList [JInt 5, JInt 6, JInt 75, JInt 14])]], True)"
    by code_simp
  have w2: "page_words sample_lib sample_scanned_page
            = [[(''text'', JStr ''Amount''), (''bbox'', JList [JInt 5, JInt 6, JInt 75, JInt 14])]]"
    by (simp add: page_words_def sample_scanned_vals)
       (simp add: sample_scanned_page_def ow)
  note t = ocr_failure_isolated[OF h1 h2 h3, of "''/tmp/run''"]
  from t have a: "json_files (process_pdf_to_data sample_lib ?doc ''/tmp/run'') ! 1
       = (json_path_of (os_path_join ''/tmp/run'' ''words'') 1, [])"
    by blast
  have e: "(1::nat) + 1 = 2" by simp
  from t have b: "OCRError 2
       \<in> set (log_lines (process_pdf_to_data sample_lib ?doc ''/tmp/run''))"
    unfolding e by blast
  from t have "2 < length ?doc \<longrightarrow>
       json_files (process_pdf_to_data sample_lib ?doc ''/tmp/run'') ! 2
       = (json_path_of (os_path_join ''/tmp/run'' ''words'') 2, page_words sample_lib (?doc ! 2))"
    by blast
  then have c: "json_files (process_pdf_to_data sample_lib ?doc ''/tmp/run'') ! 2
       = (json_path_of (os_path_join ''/tmp/run'' ''words'') 2,
          page_words sample_lib sample_scanned_page)"
    by simp
  from a[unfolded p1] b c[unfolded p2 w2] show ?thesis by (intro conjI)
qed

section \<open>Properties of the metadata fill\<close>

lemma update_absent: "map_of al k = None \<Longrightarrow> AList.update k v al = al @ [(k, v)]"
  by (induction al) (auto split: if_splits)

lemma fill_token_append:
  "fill_token idx t =
     t @ (if map_of t ''span_num'' = None then [(''span_num'', JInt (int idx))] else [])
       @ (if map_of t ''line_num'' = None then [(''line_num'', JInt 0)] else [])
       @ (if map_of t ''block_num'' = None then [(''block_num'', JInt 0)] else [])"
  by (simp add: fill_token_def Let_def update_absent map_add_def split: option.splits)

lemma map_of_fill_token:
  "map_of (fill_token idx t) k =
     (case map_of t k of
        Some v \<Rightarrow> Some v
      | None \<Rightarrow>
          (if k = ''span_num'' then Some (JInt (int idx))
           else if k = ''line_num'' \<or> k = ''block_num'' then Some (JInt 0)
           else None))"
  by (auto simp: fill_token_append map_add_def split: option.splits)

text \<open>
  Claim C10. The fill pass keeps the number and order of the tokens. In the token at index
  \<open>i\<close> it sets \<^verbatim>\<open>span_num\<close> to \<open>i\<close>, \<^verbatim>\<open>line_num\<close> to 0 and \<^verbatim>\<open>block_num\<close> to 0 where
  the key is absent; a key that is present keeps its value, and every other key of the
  token, such as \<^verbatim>\<open>text\<close> and \<^verbatim>\<open>bbox\<close>, is as before. The entries the token had stay in
  place, and the new ones follow them.
\<close>

theorem metadata_fill:
  assumes "i < length tokens"
  shows
    "length (fill_missing_metadata tokens) = length tokens
     \<and> map_of (fill_missing_metadata tokens ! i) ''span_num''
         = (case map_of (tokens ! i) ''span_num'' of
              None \<Rightarrow> Some (JInt (int i)) | Some v \<Rightarrow> Some v)
     \<and> map_of (fill_missing_metadata tokens ! i) ''line_num''
         = (case map_of (tokens ! i) ''line_num'' of
              None \<Rightarrow> Some (JInt 0) | Some v \<Rightarrow> Some v)
     \<and> map_of (fill_missing_metadata tokens ! i) ''block_num''
         = (case map_of (tokens ! i) ''block_num'' of
              None \<Rightarrow> Some (JInt 0) | Some v \<Rightarrow> Some v)
     \<and> (\<forall>key. key \<noteq> ''span_num'' \<and> key \<noteq> ''line_num'' \<and> key \<noteq> ''block_num''
           \<longrightarrow> map_of (fill_missing_metadata tokens ! i) key = map_of (tokens ! i) key)
     \<and> take (length (tokens ! i)) (fill_missing_metadata tokens ! i) = tokens ! i"
proof -
  have n: "fill_missing_metadata tokens ! i = fill_token i (tokens ! i)"
    using assms by (simp add: fill_missing_metadata_def nth_enumerate_eq)
  have A: "length (fill_missing_metadata tokens) = length tokens"
    by (simp add: fill_missing_metadata_def)
  have B: "map_of (fill_missing_metadata tokens ! i) ''span_num''
         = (case map_of (tokens ! i) ''span_num'' of
              None \<Rightarrow> Some (JInt (int i)) | Some v \<Rightarrow> Some v)"
    unfolding n by (simp add: map_of_fill_token split: option.splits)
  have C: "map_of (fill_missing_metadata tokens ! i) ''line_num''
         = (case map_of (tokens ! i) ''line_num'' of
              None \<Rightarrow> Some (JInt 0) | Some v \<Rightarrow> Some v)"
    unfolding n by (simp add: map_of_fill_token split: option.splits)
  have D: "map_of (fill_missing_metadata tokens ! i) ''block_num''
         = (case map_of (tokens ! i) ''block_num'' of
              None \<Rightarrow> Some (JInt 0) | Some v \<Rightarrow> Some v)"
    unfolding n by (simp add: map_of_fill_token split: option.splits)
  have E: "\<forall>key. key \<noteq> ''span_num'' \<and> key \<noteq> ''line_num'' \<and> key \<noteq> ''block_num''
           \<longrightarrow> map_of (fill_missing_metadata tokens ! i) key = map_of (tokens ! i) key"
    unfolding n by (simp add: map_of_fill_token split: option.splits)
  have F: "take (length (tokens ! i)) (fill_missing_metadata tokens ! i) = tokens ! i"
    unfolding n by (simp add: fill_token_append)
  from A B C D E F show ?thesis by (intro conjI)
qed

theorem metadata_fill_witness:
  "length (fill_missing_metadata sample_tokens) = 2
   \<and> map_of (fill_missing_metadata sample_tokens ! 1) ''span_num'' = Some JNull
   \<and> map_of (fill_missing_metadata sample_tokens ! 1) ''line_num'' = Some (JInt 7)
   \<and> map_of (fill_missing_metadata sample_tokens ! 1) ''block_num'' = Some (JInt 0)
   \<and> map_of (fill_missing_metadata sample_tokens ! 1) ''text'' = Some (JStr ''Amount'')
   \<and> fill_missing_metadata sample_tokens
     = [[(''text'', JStr ''Total''), (''bbox'', JList [JInt 1, JInt 2, JInt 3, JInt 4]),
         (''span_num'', JInt 0), (''line_num'', JInt 0), (''block_num'', JInt 0)],
        [(''text'', JStr ''Amount''), (''line_num'', JInt 7), (''span_num'', JNull),
         (''block_num'', JInt 0)]]"
proof -
  have h: "1 < length sample_tokens" by (simp add: sample_tokens_def)
  have l: "length sample_tokens = 2" by (simp add: sample_tokens_def)
  have v: "fill_missing_metadata sample_tokens
     = [[(''text'', JStr ''Total''), (''bbox'', JList [JInt 1, JInt 2, JInt 3, JInt 4]),
         (''span_num'', JInt 0), (''line_num'', JInt 0), (''block_num'', JInt 0)],
        [(''text'', JStr ''Amount''), (''line_num'', JInt 7), (''span_num'', JNull),
         (''block_num'', JInt 0)]]"
    by (simp add: fill_missing_metadata_def fill_token_def sample_tokens_def Let_def)
  have s: "map_of (sample_tokens ! 1) ''span_num'' = Some JNull"
    by (simp add: sample_tokens_def)
  have n: "map_of (sample_tokens ! 1) ''line_num'' = Some (JInt 7)"
    by (simp add: sample_tokens_def)
  have k: "map_of (sample_tokens ! 1) ''block_num'' = None"
    by (simp add: sample_tokens_def)
  have x: "map_of (sample_tokens ! 1) ''text'' = Some (JStr ''Amount'')"
    by (simp add: sample_tokens_def)
  have q: "''text'' \<noteq> ''span_num'' \<and> ''text'' \<noteq> ''line_num'' \<and> ''text'' \<noteq> ''block_num''"
    by simp
  note t = metadata_fill[OF h]
  have a0: "length (fill_missing_metadata sample_tokens) = 2"
    using conjunct1[OF t] unfolding l .
  have a: "map_of (fill_missing_metadata sample_tokens ! 1) ''span_num'' = Some JNull"
    using conjunct1[OF conjunct2[OF t]] unfolding s by simp
  have b: "map_of (fill_missing_metadata sample_tokens ! 1) ''line_num'' = Some (JInt 7)"
    using conjunct1[OF conjunct2[OF conjunct2[OF t]]] unfolding n by simp
  have c: "map_of (fill_missing_metadata sample_tokens ! 1) ''block_num'' = Some (JInt 0)"
    using conjunct1[OF conjunct2[OF conjunct2[OF conjunct2[OF t]]]] unfolding k by simp
  have al: "\<forall>key. key \<noteq> ''span_num'' \<and> key \<noteq> ''line_num'' \<and> key \<noteq> ''block_num''
           \<longrightarrow> map_of (fill_missing_metadata sample_tokens ! 1) key
               = map_of (sample_tokens ! 1) key"
    using conjunct1[OF conjunct2[OF conjunct2[OF conjunct2[OF conjunct2[OF t]]]]] .
  have "map_of (fill_missing_metadata sample_tokens ! 1) ''text''
        = map_of (sample_tokens ! 1) ''text''"
    using mp[OF spec[OF al, of "''text''"] q] .
  then have d: "map_of (fill_missing_metadata sample_tokens ! 1) ''text''
                = Some (JStr ''Amount'')"
    unfolding x .
  from a0 a b c d v show ?thesis by (intro conjI)
qed

end
